theory Spec2Isabelle
  imports Main
begin

section \<open>Pattern strings and Python's character classes\<close>

text \<open>
  A pattern is a Python \<open>str\<close>; it is modelled as a \<^typ>\<open>string\<close>, so the alphabet is
  the code points 0 to 255. On that range \<open>str.isspace\<close>, \<open>str.isdigit\<close> and
  \<open>str.isalnum\<close> are the following tables (Unicode categories of Latin-1).
\<close>

definition isspace :: "char \<Rightarrow> bool" where
  "isspace c = (let n = (of_char c :: nat) in
      (9 \<le> n \<and> n \<le> 13) \<or> (28 \<le> n \<and> n \<le> 32) \<or> n = 133 \<or> n = 160)"

definition isdecimal :: "char \<Rightarrow> bool" where
  "isdecimal c = (let n = (of_char c :: nat) in 48 \<le> n \<and> n \<le> 57)"

definition isdigit :: "char \<Rightarrow> bool" where
  "isdigit c = (let n = (of_char c :: nat) in
      (48 \<le> n \<and> n \<le> 57) \<or> n = 178 \<or> n = 179 \<or> n = 185)"

definition isnumeric :: "char \<Rightarrow> bool" where
  "isnumeric c = (let n = (of_char c :: nat) in
      isdigit c \<or> (188 \<le> n \<and> n \<le> 190))"

definition isalpha :: "char \<Rightarrow> bool" where
  "isalpha c = (let n = (of_char c :: nat) in
      (65 \<le> n \<and> n \<le> 90) \<or> (97 \<le> n \<and> n \<le> 122) \<or> n = 170 \<or> n = 181 \<or> n = 186 \<or>
      (192 \<le> n \<and> n \<le> 214) \<or> (216 \<le> n \<and> n \<le> 246) \<or> (248 \<le> n \<and> n \<le> 255))"

definition isalnum :: "char \<Rightarrow> bool" where
  "isalnum c = (isalpha c \<or> isdecimal c \<or> isdigit c \<or> isnumeric c)"

text \<open>\<open>s.strip()\<close>: leading and trailing whitespace removed.\<close>

definition strip :: "string \<Rightarrow> string" where
  "strip s = rev (dropWhile isspace (rev (dropWhile isspace s)))"

text \<open>\<open>"..." in s\<close>, \<open>str.count(s, "...")\<close> (occurrences that do not overlap, from the left)
  and \<open>s.replace("...", "_ellipsis_")\<close>.\<close>

fun contains_dots :: "string \<Rightarrow> bool" where
  "contains_dots (a # b # c # rest) =
     ((a = CHR ''.'' \<and> b = CHR ''.'' \<and> c = CHR ''.'') \<or> contains_dots (b # c # rest))"
| "contains_dots _ = False"

fun count_dots :: "string \<Rightarrow> nat" where
  "count_dots (a # b # c # rest) =
     (if a = CHR ''.'' \<and> b = CHR ''.'' \<and> c = CHR ''.'' then 1 + count_dots rest
      else count_dots (b # c # rest))"
| "count_dots _ = 0"

fun replace_dots :: "string \<Rightarrow> string" where
  "replace_dots (a # b # c # rest) =
     (if a = CHR ''.'' \<and> b = CHR ''.'' \<and> c = CHR ''.'' then ''_ellipsis_'' @ replace_dots rest
      else a # replace_dots (b # c # rest))"
| "replace_dots s = s"

text \<open>\<open>'->' in pattern\<close> and \<open>pattern.split('->')\<close>; the second argument of
  \<open>split_arrow\<close> is the piece read so far.\<close>

fun contains_arrow :: "string \<Rightarrow> bool" where
  "contains_arrow (a # b # rest) =
     ((a = CHR ''-'' \<and> b = CHR ''>'') \<or> contains_arrow (b # rest))"
| "contains_arrow _ = False"

fun split_arrow :: "string \<Rightarrow> string \<Rightarrow> string list" where
  "split_arrow (a # b # rest) cur =
     (if a = CHR ''-'' \<and> b = CHR ''>'' then cur # split_arrow rest []
      else split_arrow (b # rest) (cur @ [a]))"
| "split_arrow [a] cur = [cur @ [a]]"
| "split_arrow [] cur = [cur]"

section \<open>Errors\<close>

text \<open>
  Every \<open>raise EinopsError(...)\<close> of the source is one constructor of \<open>einops_msg\<close>,
  carrying the values its message is formatted from. The other constructors of
  \<open>error\<close> are the built-in exceptions that the operations of the source can raise.
\<close>

datatype einops_msg =
    PatternMustContainArrow
  | ExpressionEmpty
  | MultipleEllipsis
  | InvalidCharacter char
  | EllipsisInsideParenthesis
  | EmptyAxisName
  | AxisStartsWithNumber string
  | InvalidAxisName string
  | NestedParentheses
  | UnmatchedClosingParenthesis
  | EmptyParentheses
  | UnclosedParenthesis
  | InconsistentSize string int int
  | ShapeMismatchProduct "string list" int int
  | CannotDivide int int
  | MultipleUnknownDimensions "string list"
  | MoreDimensionsThanTensor
  | UnknownDimension string
  | CannotReshape int "int list"
  | RequiresFewerDimensions
  | RequiresMoreDimensions
  | CannotInferSizes
  | UnknownDimensions "string set"
  | UnknownDimensionKey string
  | ShapeMismatchNumpy

datatype error =
    EinopsError einops_msg
  | ValueError
  | KeyError string
  | IndexError
  | UnboundLocalError
  | ZeroDivisionError
  | TypeError

section \<open>parser.py: ParsedExpression\<close>

datatype element = is_Group: Group "string list" | Ellipsis

record parsed_expression =
  has_ellipsis :: bool
  identifiers :: "string set"
  composition :: "element list"
  actual_dim_count :: nat

text \<open>The character loop of \<open>__init__\<close>: \<open>cur\<close> is \<open>current_token\<close>.\<close>

fun tokenize :: "string \<Rightarrow> string \<Rightarrow> string list \<Rightarrow> error + string list" where
  "tokenize [] cur tokens = Inr (if cur \<noteq> [] then tokens @ [cur] else tokens)"
| "tokenize (c # cs) cur tokens =
     (if \<not> (isalnum c \<or> c \<in> set ''() _.'' \<or> isspace c)
      then Inl (EinopsError (InvalidCharacter c))
      else if c \<in> set ''() '' then
        (let tokens1 = (if cur \<noteq> [] then tokens @ [cur] else tokens);
             tokens2 = (if c \<noteq> CHR '' '' then tokens1 @ [[c]] else tokens1)
         in tokenize cs [] tokens2)
      else tokenize cs (cur @ [c]) tokens)"

text \<open>\<open>add_axis_name\<close>: the closure reads \<open>bracket_group\<close> (\<open>None\<close> when no group is
  open) and updates it or the expression.\<close>

definition add_axis_name ::
  "string \<Rightarrow> string list option \<Rightarrow> parsed_expression
     \<Rightarrow> error + (string list option \<times> parsed_expression)" where
  "add_axis_name name bracket_group pe =
     (if name = ''_ellipsis_'' then
        (if bracket_group \<noteq> None then Inl (EinopsError EllipsisInsideParenthesis)
         else Inr (bracket_group, pe\<lparr>composition := composition pe @ [Ellipsis]\<rparr>))
      else if name = [] then Inl (EinopsError EmptyAxisName)
      else if isdigit (hd name) then Inl (EinopsError (AxisStartsWithNumber name))
      else if \<not> list_all (\<lambda>c. isalnum c \<or> c = CHR ''_'') name
        then Inl (EinopsError (InvalidAxisName name))
      else
        (case bracket_group of
           Some g \<Rightarrow> Inr (Some (g @ [name]), pe\<lparr>identifiers := insert name (identifiers pe)\<rparr>)
         | None \<Rightarrow> Inr (None, pe\<lparr>composition := composition pe @ [Group [name]],
                                  identifiers := insert name (identifiers pe)\<rparr>)))"

fun process_tokens ::
  "string list \<Rightarrow> string list option \<Rightarrow> parsed_expression \<Rightarrow> error + parsed_expression" where
  "process_tokens [] bracket_group pe =
     (if bracket_group \<noteq> None then Inl (EinopsError UnclosedParenthesis) else Inr pe)"
| "process_tokens (token # tokens) bracket_group pe =
     (if token = ''('' then
        (if bracket_group \<noteq> None then Inl (EinopsError NestedParentheses)
         else process_tokens tokens (Some []) pe)
      else if token = '')'' then
        (case bracket_group of
           None \<Rightarrow> Inl (EinopsError UnmatchedClosingParenthesis)
         | Some g \<Rightarrow>
             if g = [] then Inl (EinopsError EmptyParentheses)
             else process_tokens tokens None
                    (pe\<lparr>composition := composition pe @ [Group g],
                        actual_dim_count := actual_dim_count pe + 1\<rparr>))
      else
        (case add_axis_name token bracket_group pe of
           Inl e \<Rightarrow> Inl e
         | Inr (bg, pe1) \<Rightarrow>
             process_tokens tokens bg
               (if bg = None then pe1\<lparr>actual_dim_count := actual_dim_count pe1 + 1\<rparr> else pe1)))"

definition ParsedExpression :: "string \<Rightarrow> error + parsed_expression" where
  "ParsedExpression expression =
     (if expression = [] \<or> list_all isspace expression then Inl (EinopsError ExpressionEmpty)
      else if contains_dots expression \<and> 1 < count_dots expression
        then Inl (EinopsError MultipleEllipsis)
      else
        (let dots = contains_dots expression;
             expression1 = (if dots then replace_dots expression else expression)
         in case tokenize expression1 [] [] of
              Inl e \<Rightarrow> Inl e
            | Inr tokens \<Rightarrow>
                process_tokens tokens None
                  \<lparr>has_ellipsis = dots, identifiers = {}, composition = [],
                   actual_dim_count = 0\<rparr>))"

section \<open>The array collaborator (numpy)\<close>

text \<open>
  An array is its shape and its elements in row-major order; arrays and shapes are those
  that numpy can hold. \<open>np.prod\<close> of a tuple of sizes that all fit 64-bit integers is
  computed in 64-bit integers and wraps (\<open>np.prod(())\<close> is \<open>1.0\<close>, which compares as 1);
  with a size outside that range numpy computes on Python integers, without wrapping.
  The product of sizes within the range is a numpy scalar, so \<open>total_size % known_product\<close>
  and \<open>total_size // known_product\<close> are numpy's integer remainder and floor division:
  with a zero divisor they give 0 and a \<open>RuntimeWarning\<close>, where Python's own integers
  would raise.
\<close>

record 'a ndarray =
  shape :: "nat list"
  data :: "'a list"

definition wf_ndarray :: "'a ndarray \<Rightarrow> bool" where
  "wf_ndarray t = (length (data t) = prod_list (shape t))"

definition wrap64 :: "int \<Rightarrow> int" where
  "wrap64 x = (x + 2 ^ 63) mod 2 ^ 64 - 2 ^ 63"

definition np_prod :: "int list \<Rightarrow> int" where
  "np_prod xs =
     (if list_all (\<lambda>x. - (2 ^ 63) \<le> x \<and> x < 2 ^ 63) xs then wrap64 (prod_list xs)
      else prod_list xs)"

definition np_mod :: "int \<Rightarrow> int \<Rightarrow> int" where
  "np_mod a b = (if b = 0 then 0 else a mod b)"

definition np_floordiv :: "int \<Rightarrow> int \<Rightarrow> int" where
  "np_floordiv a b = (if b = 0 then 0 else a div b)"

text \<open>Python's \<open>xs[i]\<close>, \<open>range(a, b)\<close>, \<open>xs[i:j]\<close> and \<open>xs.index(x)\<close> (of an \<open>x\<close> that
  is in \<open>xs\<close>, as everywhere in the source).\<close>

definition py_nth :: "'a list \<Rightarrow> int \<Rightarrow> error + 'a" where
  "py_nth xs i =
     (let n = int (length xs); j = (if i < 0 then i + n else i)
      in if 0 \<le> j \<and> j < n then Inr (xs ! nat j) else Inl IndexError)"

definition py_range :: "int \<Rightarrow> int \<Rightarrow> int list" where
  "py_range a b = [a..b - 1]"

definition py_slice :: "'a list \<Rightarrow> int \<Rightarrow> int \<Rightarrow> 'a list" where
  "py_slice xs i j =
     (let n = int (length xs);
          s = (if i < 0 then max (i + n) 0 else min i n);
          e = (if j < 0 then max (j + n) 0 else min j n)
      in take (nat (e - s)) (drop (nat s) xs))"

definition index_of :: "'a list \<Rightarrow> 'a \<Rightarrow> nat" where
  "index_of xs x = length (takeWhile (\<lambda>y. y \<noteq> x) xs)"

text \<open>Row-major positions: \<open>ravel\<close> maps a multi-index to the flat position and
  \<open>unravel\<close> back.\<close>

fun ravel :: "nat list \<Rightarrow> nat list \<Rightarrow> nat" where
  "ravel (s # ss) (i # js) = i * prod_list ss + ravel ss js"
| "ravel _ _ = 0"

fun unravel :: "nat list \<Rightarrow> nat \<Rightarrow> nat list" where
  "unravel [] k = []"
| "unravel (s # ss) k = (k div prod_list ss) # unravel ss (k mod prod_list ss)"

text \<open>\<open>ndarray.reshape\<close>: one entry may be \<open>-1\<close> and is then inferred; every failure is a
  \<open>ValueError\<close>.\<close>

definition reshape :: "'a ndarray \<Rightarrow> int list \<Rightarrow> error + 'a ndarray" where
  "reshape t new_shape =
     (let size = int (prod_list (shape t)) in
      if \<exists>d \<in> set new_shape. d < - 1 then Inl ValueError
      else if 1 < count_list new_shape (- 1) then Inl ValueError
      else if count_list new_shape (- 1) = 1 then
        (let known = prod_list (filter (\<lambda>d. d \<noteq> - 1) new_shape) in
         if known = 0 \<or> size mod known \<noteq> 0 then Inl ValueError
         else Inr \<lparr>shape = map (\<lambda>d. nat (if d = - 1 then size div known else d)) new_shape,
                   data = data t\<rparr>)
      else if prod_list new_shape \<noteq> size then Inl ValueError
      else Inr \<lparr>shape = map nat new_shape, data = data t\<rparr>)"

text \<open>\<open>ndarray.transpose\<close>: axis \<open>i\<close> of the result is axis \<open>axes[i]\<close> of the array;
  negative axes count from the end; a wrong length, an axis out of range
  (\<open>AxisError\<close>, a \<open>ValueError\<close>) or a repeated axis is a \<open>ValueError\<close>.\<close>

definition transpose_nd :: "'a ndarray \<Rightarrow> int list \<Rightarrow> error + 'a ndarray" where
  "transpose_nd t axes =
     (let n = length (shape t);
          norm = map (\<lambda>a. if a < 0 then a + int n else a) axes
      in if length axes \<noteq> n \<or> (\<exists>a \<in> set norm. a < 0 \<or> int n \<le> a) \<or> \<not> distinct norm
         then Inl ValueError
         else
           (let ax = map nat norm;
                new_shape = map (\<lambda>a. shape t ! a) ax
            in Inr \<lparr>shape = new_shape,
                     data = map (\<lambda>k. data t !
                                   ravel (shape t)
                                     (map (\<lambda>d. unravel new_shape k ! index_of ax d) [0..<n]))
                              [0..<prod_list new_shape]\<rparr>))"

section \<open>funcs.py: the shape resolver\<close>

text \<open>The number of groups after the (first) ellipsis:
  \<open>sum(1 for x in composition[composition.index(item)+1:] if isinstance(x, list))\<close>.\<close>

definition remaining_dims :: "element list \<Rightarrow> int" where
  "remaining_dims comps =
     int (length (filter is_Group (drop (Suc (index_of comps Ellipsis)) comps)))"

text \<open>The body of the loop of \<open>_get_shape_dict\<close> for a group; the state is
  \<open>(shape_dict, current_dim)\<close>.\<close>

definition resolve_group ::
  "nat list \<Rightarrow> string list \<Rightarrow> (string \<rightharpoonup> int) \<times> int \<Rightarrow> error + ((string \<rightharpoonup> int) \<times> int)" where
  "resolve_group shp item st =
     (case st of (shape_dict, current_dim) \<Rightarrow>
      case py_nth shp current_dim of
        Inl e \<Rightarrow> Inl e
      | Inr n \<Rightarrow>
         (let total_size = int n in
          if length item = 1 then
            (let axis_name = hd item in
             case shape_dict axis_name of
               None \<Rightarrow> Inr (shape_dict(axis_name \<mapsto> total_size), current_dim + 1)
             | Some v \<Rightarrow>
                 if v \<noteq> total_size
                 then Inl (EinopsError (InconsistentSize axis_name total_size v))
                 else Inr (shape_dict, current_dim + 1))
          else
            (let unknown_dims = filter (\<lambda>d. shape_dict d = None) item in
             if unknown_dims = [] then
               (let product = np_prod (map (\<lambda>d. the (shape_dict d)) item) in
                if product \<noteq> total_size
                then Inl (EinopsError (ShapeMismatchProduct item product total_size))
                else Inr (shape_dict, current_dim + 1))
             else if length unknown_dims = 1 then
               (let known_dims = map (\<lambda>d. the (shape_dict d))
                                   (filter (\<lambda>d. shape_dict d \<noteq> None) item);
                    known_product = np_prod known_dims
                in if np_mod total_size known_product \<noteq> 0
                   then Inl (EinopsError (CannotDivide total_size known_product))
                   else Inr (shape_dict(hd unknown_dims \<mapsto> np_floordiv total_size known_product),
                             current_dim + 1))
             else Inl (EinopsError (MultipleUnknownDimensions item)))))"

fun shape_dict_loop ::
  "nat list \<Rightarrow> element list \<Rightarrow> element list \<Rightarrow> (string \<rightharpoonup> int) \<times> int
     \<Rightarrow> error + ((string \<rightharpoonup> int) \<times> int)" where
  "shape_dict_loop shp comps [] st = Inr st"
| "shape_dict_loop shp comps (Group item # items) st =
     (case resolve_group shp item st of
        Inl e \<Rightarrow> Inl e
      | Inr st1 \<Rightarrow> shape_dict_loop shp comps items st1)"
| "shape_dict_loop shp comps (Ellipsis # items) st =
     (case st of (shape_dict, current_dim) \<Rightarrow>
      let ellipsis_dims = int (length shp) - current_dim - remaining_dims comps in
      if ellipsis_dims < 0 then Inl (EinopsError MoreDimensionsThanTensor)
      else shape_dict_loop shp comps items (shape_dict, current_dim + ellipsis_dims))"

definition get_shape_dict ::
  "'a ndarray \<Rightarrow> parsed_expression \<Rightarrow> (string \<rightharpoonup> int) \<Rightarrow> error + (string \<rightharpoonup> int)" where
  "get_shape_dict tensor source_parsed named_sizes =
     (case shape_dict_loop (shape tensor) (composition source_parsed)
             (composition source_parsed) (named_sizes, 0) of
        Inl e \<Rightarrow> Inl e
      | Inr (shape_dict, current_dim) \<Rightarrow> Inr shape_dict)"

section \<open>funcs.py: the output planner\<close>

text \<open>The state of the first loop of \<open>_compute_output_shape\<close>; \<open>ellipsis_dims\<close> is
  \<open>None\<close> while the local variable is unbound.\<close>

record source_state =
  intermediate_shape :: "int list"
  source_positions :: "string \<rightharpoonup> int"
  current_dim :: int
  ellipsis_dims :: "int list option"

definition flatten_axis ::
  "(string \<rightharpoonup> int) \<Rightarrow> string \<Rightarrow> source_state \<Rightarrow> error + source_state" where
  "flatten_axis shape_dict axis st =
     (case shape_dict axis of
        None \<Rightarrow> Inl (KeyError axis)
      | Some v \<Rightarrow>
          Inr (st\<lparr>intermediate_shape := intermediate_shape st @ [v],
                  source_positions := (source_positions st)(axis \<mapsto> current_dim st),
                  current_dim := current_dim st + 1\<rparr>))"

fun flatten_axes ::
  "(string \<rightharpoonup> int) \<Rightarrow> string list \<Rightarrow> source_state \<Rightarrow> error + source_state" where
  "flatten_axes shape_dict [] st = Inr st"
| "flatten_axes shape_dict (axis # item) st =
     (case flatten_axis shape_dict axis st of
        Inl e \<Rightarrow> Inl e
      | Inr st1 \<Rightarrow> flatten_axes shape_dict item st1)"

fun source_pass ::
  "nat list \<Rightarrow> (string \<rightharpoonup> int) \<Rightarrow> element list \<Rightarrow> element list \<Rightarrow> source_state
     \<Rightarrow> error + source_state" where
  "source_pass shp shape_dict comps [] st = Inr st"
| "source_pass shp shape_dict comps (Group item # items) st =
     (case (if length item = 1 then flatten_axis shape_dict (hd item) st
            else flatten_axes shape_dict item st) of
        Inl e \<Rightarrow> Inl e
      | Inr st1 \<Rightarrow> source_pass shp shape_dict comps items st1)"
| "source_pass shp shape_dict comps (Ellipsis # items) st =
     (let ellipsis_start = current_dim st;
          ellipsis_end = int (length shp) - remaining_dims comps
      in source_pass shp shape_dict comps items
           (st\<lparr>intermediate_shape :=
                   intermediate_shape st @ map int (py_slice shp ellipsis_start ellipsis_end),
               current_dim := ellipsis_end,
               ellipsis_dims := Some (py_range ellipsis_start ellipsis_end)\<rparr>))"

text \<open>\<open>tuple(m[axis] for axis in item)\<close>: the first missing key raises \<open>KeyError\<close>.\<close>

fun lookup_all :: "(string \<rightharpoonup> int) \<Rightarrow> string list \<Rightarrow> error + int list" where
  "lookup_all m [] = Inr []"
| "lookup_all m (axis # item) =
     (case m axis of
        None \<Rightarrow> Inl (KeyError axis)
      | Some v \<Rightarrow>
          (case lookup_all m item of Inl e \<Rightarrow> Inl e | Inr vs \<Rightarrow> Inr (v # vs)))"

text \<open>\<open>tensor.shape[d] for d in ellipsis_dims\<close>.\<close>

fun nth_all :: "nat list \<Rightarrow> int list \<Rightarrow> error + nat list" where
  "nth_all shp [] = Inr []"
| "nth_all shp (d # ds) =
     (case py_nth shp d of
        Inl e \<Rightarrow> Inl e
      | Inr v \<Rightarrow> (case nth_all shp ds of Inl e \<Rightarrow> Inl e | Inr vs \<Rightarrow> Inr (v # vs)))"

text \<open>The second loop; the state is \<open>(final_shape, permutation)\<close>.\<close>

fun target_pass ::
  "nat list \<Rightarrow> (string \<rightharpoonup> int) \<Rightarrow> (string \<rightharpoonup> int) \<Rightarrow> int list option \<Rightarrow> element list
     \<Rightarrow> int list \<times> int list \<Rightarrow> error + (int list \<times> int list)" where
  "target_pass shp shape_dict positions edims [] st = Inr st"
| "target_pass shp shape_dict positions edims (Group item # items) st =
     (case st of (final_shape, permutation) \<Rightarrow>
      if length item = 1 then
        (case shape_dict (hd item) of
           None \<Rightarrow> Inl (EinopsError (UnknownDimension (hd item)))
         | Some v \<Rightarrow>
             (case positions (hd item) of
                None \<Rightarrow> Inl (KeyError (hd item))
              | Some p \<Rightarrow>
                  target_pass shp shape_dict positions edims items
                    (final_shape @ [v], permutation @ [p])))
      else
        (case lookup_all shape_dict item of
           Inl e \<Rightarrow> Inl e
         | Inr vs \<Rightarrow>
             (case lookup_all positions item of
                Inl e \<Rightarrow> Inl e
              | Inr ps \<Rightarrow>
                  target_pass shp shape_dict positions edims items
                    (final_shape @ [np_prod vs], permutation @ ps))))"
| "target_pass shp shape_dict positions edims (Ellipsis # items) st =
     (case st of (final_shape, permutation) \<Rightarrow>
      case edims of
        None \<Rightarrow> Inl UnboundLocalError
      | Some ds \<Rightarrow>
          (case nth_all shp ds of
             Inl e \<Rightarrow> Inl e
           | Inr vs \<Rightarrow>
               target_pass shp shape_dict positions edims items
                 (final_shape @ map int vs, permutation @ ds)))"

definition compute_output_shape ::
  "'a ndarray \<Rightarrow> parsed_expression \<Rightarrow> parsed_expression \<Rightarrow> (string \<rightharpoonup> int)
     \<Rightarrow> error + (int list \<times> int list \<times> int list)" where
  "compute_output_shape tensor target_parsed source_parsed shape_dict =
     (case source_pass (shape tensor) shape_dict (composition source_parsed)
             (composition source_parsed)
             \<lparr>intermediate_shape = [], source_positions = Map.empty, current_dim = 0,
              ellipsis_dims = None\<rparr> of
        Inl e \<Rightarrow> Inl e
      | Inr st \<Rightarrow>
          (case target_pass (shape tensor) shape_dict (source_positions st) (ellipsis_dims st)
                  (composition target_parsed) ([], []) of
             Inl e \<Rightarrow> Inl e
           | Inr (final_shape, permutation) \<Rightarrow>
               if np_prod (intermediate_shape st) \<noteq> np_prod final_shape
               then Inl (EinopsError
                           (CannotReshape (np_prod (intermediate_shape st)) final_shape))
               else Inr (intermediate_shape st, final_shape, permutation)))"

section \<open>funcs.py: rearrange\<close>

text \<open>The three \<open>try\<close> blocks of \<open>rearrange\<close> turn a \<open>ValueError\<close> or a \<open>KeyError\<close>
  into an \<open>EinopsError\<close>; any other exception passes through.\<close>

definition except_ValueError :: "einops_msg \<Rightarrow> error + 'a \<Rightarrow> error + 'a" where
  "except_ValueError msg r =
     (case r of Inl ValueError \<Rightarrow> Inl (EinopsError msg) | _ \<Rightarrow> r)"

definition except_KeyError :: "error + 'a \<Rightarrow> error + 'a" where
  "except_KeyError r =
     (case r of Inl (KeyError k) \<Rightarrow> Inl (EinopsError (UnknownDimensionKey k)) | _ \<Rightarrow> r)"

text \<open>Lines 130 to 163 of \<open>rearrange\<close>: everything up to the plan
  \<open>(intermediate_shape, final_shape, permutation)\<close>.
  \<open>source, target = pattern.split('->')\<close> raises \<open>ValueError\<close> unless the split has
  exactly two pieces.\<close>

definition rearrange_plan ::
  "'a ndarray \<Rightarrow> string \<Rightarrow> (string \<rightharpoonup> int) \<Rightarrow> error + (int list \<times> int list \<times> int list)" where
  "rearrange_plan tensor pattern named_sizes =
     (if \<not> contains_arrow pattern then Inl (EinopsError PatternMustContainArrow)
      else
        (case split_arrow pattern [] of
           [source, target] \<Rightarrow>
             (case ParsedExpression (strip source) of
                Inl e \<Rightarrow> Inl e
              | Inr source_parsed \<Rightarrow>
                 (case ParsedExpression (strip target) of
                    Inl e \<Rightarrow> Inl e
                  | Inr target_parsed \<Rightarrow>
                     (let rank = int (length (shape tensor));
                          source_dims0 = int (actual_dim_count source_parsed);
                          source_dims = (if has_ellipsis source_parsed
                                         then source_dims0 + (rank - source_dims0)
                                         else source_dims0)
                      in if source_dims \<noteq> rank then
                           (if source_dims < rank
                            then Inl (EinopsError RequiresFewerDimensions)
                            else Inl (EinopsError RequiresMoreDimensions))
                         else
                           (case except_ValueError CannotInferSizes
                                   (get_shape_dict tensor source_parsed named_sizes) of
                              Inl e \<Rightarrow> Inl e
                            | Inr shape_dict \<Rightarrow>
                               (let target_identifiers = identifiers target_parsed - {''...''};
                                    source_identifiers = identifiers source_parsed - {''...''};
                                    unknown_dims = target_identifiers - source_identifiers
                                in if unknown_dims \<noteq> {}
                                   then Inl (EinopsError (UnknownDimensions unknown_dims))
                                   else except_KeyError
                                          (compute_output_shape tensor target_parsed
                                             source_parsed shape_dict))))))
         | _ \<Rightarrow> Inl ValueError))"

text \<open>Lines 165 to 171: the reshapes and the transpose.\<close>

definition perform ::
  "'a ndarray \<Rightarrow> int list \<times> int list \<times> int list \<Rightarrow> error + 'a ndarray" where
  "perform tensor plan =
     (case plan of (intermediate, final_shape, permutation) \<Rightarrow>
      except_ValueError ShapeMismatchNumpy
        (if permutation = map int [0..<length permutation] then reshape tensor final_shape
         else
           (case reshape tensor intermediate of
              Inl e \<Rightarrow> Inl e
            | Inr t1 \<Rightarrow>
                (case transpose_nd t1 permutation of
                   Inl e \<Rightarrow> Inl e
                 | Inr t2 \<Rightarrow> reshape t2 final_shape))))"

definition rearrange :: "'a ndarray \<Rightarrow> string \<Rightarrow> (string \<rightharpoonup> int) \<Rightarrow> error + 'a ndarray" where
  "rearrange tensor pattern named_sizes =
     (case rearrange_plan tensor pattern named_sizes of
        Inl e \<Rightarrow> Inl e
      | Inr plan \<Rightarrow> perform tensor plan)"

text \<open>The call \<open>rearrange(tensor, pattern, **named_sizes)\<close>: the sizes are keyword
  arguments, so a size named \<open>tensor\<close> or \<open>pattern\<close> collides with a parameter that is
  already bound and Python raises \<open>TypeError\<close> before the body runs.\<close>

definition call_rearrange ::
  "'a ndarray \<Rightarrow> string \<Rightarrow> (string \<rightharpoonup> int) \<Rightarrow> error + 'a ndarray" where
  "call_rearrange tensor pattern named_sizes =
     (if named_sizes ''tensor'' \<noteq> None \<or> named_sizes ''pattern'' \<noteq> None then Inl TypeError
      else rearrange tensor pattern named_sizes)"

section \<open>Notions used in the statements\<close>

text \<open>The axis names of one half of a pattern, as \<open>rearrange\<close> parses it (none when the half
  does not parse).\<close>

definition half_identifiers :: "string \<Rightarrow> string set" where
  "half_identifiers half =
     (case ParsedExpression (strip half) of Inl e \<Rightarrow> {} | Inr p \<Rightarrow> identifiers p)"

text \<open>The axis names of a composition, group after group.\<close>

fun axis_names :: "element list \<Rightarrow> string list" where
  "axis_names [] = []"
| "axis_names (Group g # items) = g @ axis_names items"
| "axis_names (Ellipsis # items) = axis_names items"

text \<open>The positions that the first loop of \<open>_compute_output_shape\<close> has given to the
  ellipsis (none while the variable is unbound).\<close>

definition ellipsis_list :: "int list option \<Rightarrow> int list" where
  "ellipsis_list ed = (case ed of None \<Rightarrow> [] | Some ds \<Rightarrow> ds)"

text \<open>A state of the first loop of \<open>_compute_output_shape\<close> in which every recorded
  position is a position of the intermediate shape.\<close>

definition positions_in_range :: "source_state \<Rightarrow> bool" where
  "positions_in_range st =
     (0 \<le> current_dim st \<and> current_dim st \<le> int (length (intermediate_shape st))
      \<and> (\<forall>k p. source_positions st k = Some p \<longrightarrow>
             0 \<le> p \<and> p < int (length (intermediate_shape st)))
      \<and> (\<forall>d \<in> set (ellipsis_list (ellipsis_dims st)).
             0 \<le> d \<and> d < int (length (intermediate_shape st))))"

text \<open>The errors that only the checks of \<open>rearrange\<close> itself raise: the rank check and the
  comparison of the identifiers.\<close>

definition check_error :: "error \<Rightarrow> bool" where
  "check_error e =
     (e = EinopsError RequiresFewerDimensions \<or> e = EinopsError RequiresMoreDimensions
      \<or> (\<exists>names. e = EinopsError (UnknownDimensions names)))"

text \<open>Lines 147 to 163 of \<open>rearrange\<close>, the part after the rank check, for parsed halves.\<close>

definition resolve_and_plan ::
  "'a ndarray \<Rightarrow> parsed_expression \<Rightarrow> parsed_expression \<Rightarrow> (string \<rightharpoonup> int)
     \<Rightarrow> error + (int list \<times> int list \<times> int list)" where
  "resolve_and_plan tensor source_parsed target_parsed named_sizes =
     (case except_ValueError CannotInferSizes
             (get_shape_dict tensor source_parsed named_sizes) of
        Inl e \<Rightarrow> Inl e
      | Inr shape_dict \<Rightarrow>
         (let target_identifiers = identifiers target_parsed - {''...''};
              source_identifiers = identifiers source_parsed - {''...''};
              unknown_dims = target_identifiers - source_identifiers
          in if unknown_dims \<noteq> {}
             then Inl (EinopsError (UnknownDimensions unknown_dims))
             else except_KeyError
                    (compute_output_shape tensor target_parsed source_parsed shape_dict)))"

section \<open>Auxiliary facts\<close>

lemma wrap64_id: "- (2 ^ 63) \<le> x \<Longrightarrow> x < 2 ^ 63 \<Longrightarrow> wrap64 x = x"
  by (simp add: wrap64_def)

lemma np_prod_small:
  "- (2 ^ 63) \<le> prod_list xs \<Longrightarrow> prod_list xs < 2 ^ 63 \<Longrightarrow> np_prod xs = prod_list xs"
  by (simp add: np_prod_def wrap64_id)



lemma parse_a_b_c: "ParsedExpression ''a b c'' = Inr \<lparr>has_ellipsis = False,
              identifiers = {''a'', ''b'', ''c''},
              composition = [Group [''a''], Group [''b''], Group [''c'']],
              actual_dim_count = 3\<rparr>"
  by code_simp

lemma parse_ab_c: "ParsedExpression ''(a b) c'' = Inr \<lparr>has_ellipsis = False,
              identifiers = {''a'', ''b'', ''c''},
              composition = [Group [''a'', ''b''], Group [''c'']], actual_dim_count = 2\<rparr>"
  by code_simp



lemma strip_ab_c: "strip ''(a b) c '' = ''(a b) c''"
  by code_simp

lemma strip_a_b_c: "strip '' a b c'' = ''a b c''"
  by code_simp


lemma ravel_unravel_index:
  "list_all2 (\<lambda>i s. i < s) idx shp \<Longrightarrow>
     ravel shp idx < prod_list shp \<and> unravel shp (ravel shp idx) = idx"
proof (induction rule: list_all2_induct)
  case Nil
  then show ?case by simp
next
  case (Cons i js s ss)
  let ?P = "prod_list ss"
  let ?r = "ravel ss js"
  from Cons.IH have r: "?r < ?P" and u: "unravel ss ?r = js" by simp_all
  from r have P: "0 < ?P" by simp
  have "i * ?P + ?r < (i + 1) * ?P" using r by simp
  also have "\<dots> \<le> s * ?P" using Cons.hyps(1) by (intro mult_le_mono1) simp
  finally have lt: "i * ?P + ?r < s * ?P" .
  have d: "(i * ?P + ?r) div ?P = i" using r P by simp
  have m: "(i * ?P + ?r) mod ?P = ?r" using r by simp
  show ?case using lt d m u by simp
qed

lemma unravel_ravel_position:
  "k < prod_list shp \<Longrightarrow>
     ravel shp (unravel shp k) = k \<and> list_all2 (\<lambda>i s. i < s) (unravel shp k) shp"
proof (induction shp arbitrary: k)
  case Nil
  then show ?case by simp
next
  case (Cons s ss)
  let ?P = "prod_list ss"
  from Cons.prems have k: "k < s * ?P" by simp
  then have P: "0 < ?P" by (cases "?P = 0") simp_all
  then have "k mod ?P < ?P" by simp
  from Cons.IH[OF this] have ih1: "ravel ss (unravel ss (k mod ?P)) = k mod ?P"
    and ih2: "list_all2 (\<lambda>i s. i < s) (unravel ss (k mod ?P)) ss" by simp_all
  have "k div ?P < s" using k P by (simp add: less_mult_imp_div_less)
  then show ?case using ih1 ih2 by simp
qed

lemma reverse_twice_data:
  assumes "length xs = prod_list shp"
  shows "map (\<lambda>k. map (\<lambda>m. xs ! ravel shp (rev (unravel (rev shp) m))) [0..<prod_list (rev shp)]
                  ! ravel (rev shp) (rev (unravel shp k)))
           [0..<prod_list shp] = xs"
proof (rule nth_equalityI)
  show "length (map (\<lambda>k. map (\<lambda>m. xs ! ravel shp (rev (unravel (rev shp) m)))
                      [0..<prod_list (rev shp)] ! ravel (rev shp) (rev (unravel shp k)))
           [0..<prod_list shp]) = length xs"
    using assms by simp
next
  fix k
  assume "k < length (map (\<lambda>k. map (\<lambda>m. xs ! ravel shp (rev (unravel (rev shp) m)))
                      [0..<prod_list (rev shp)] ! ravel (rev shp) (rev (unravel shp k)))
           [0..<prod_list shp])"
  then have k: "k < prod_list shp" by simp
  from unravel_ravel_position[OF k]
  have r: "ravel shp (unravel shp k) = k"
    and inr: "list_all2 (\<lambda>i s. i < s) (unravel shp k) shp" by simp_all
  from inr have "list_all2 (\<lambda>i s. i < s) (rev (unravel shp k)) (rev shp)"
    by (simp add: list_all2_rev)
  from ravel_unravel_index[OF this]
  have lt: "ravel (rev shp) (rev (unravel shp k)) < prod_list (rev shp)"
    and u: "unravel (rev shp) (ravel (rev shp) (rev (unravel shp k))) = rev (unravel shp k)"
    by simp_all
  show "map (\<lambda>k. map (\<lambda>m. xs ! ravel shp (rev (unravel (rev shp) m)))
                      [0..<prod_list (rev shp)] ! ravel (rev shp) (rev (unravel shp k)))
           [0..<prod_list shp] ! k = xs ! k"
    using k lt by (simp add: u r)
qed

lemma prod_list_int: "prod_list (map int shp) = int (prod_list shp)"
  by (induction shp) simp_all

lemma count_list_int_neg: "count_list (map int shp) (- 1) = 0"
  by (induction shp) simp_all

lemma reshape_nat:
  assumes "prod_list shp = prod_list (shape t)"
  shows "reshape t (map int shp) = Inr \<lparr>shape = shp, data = data t\<rparr>"
  using assms
  by (simp add: reshape_def count_list_int_neg prod_list_int o_def)

lemma transpose_reverse3:
  assumes "shape t = [a, b, c]"
  shows "transpose_nd t [2, 1, 0] =
           Inr \<lparr>shape = [c, b, a],
                data = map (\<lambda>k. data t ! ravel [a, b, c] (rev (unravel [c, b, a] k)))
                         [0..<prod_list [c, b, a]]\<rparr>"
  by (simp add: transpose_nd_def assms index_of_def)

lemma parse_c_b_a: "ParsedExpression ''c b a'' = Inr \<lparr>has_ellipsis = False,
              identifiers = {''c'', ''b'', ''a''},
              composition = [Group [''c''], Group [''b''], Group [''a'']],
              actual_dim_count = 3\<rparr>"
  by code_simp

lemma strip_a_b_c_left: "strip ''a b c '' = ''a b c''"
  by code_simp

lemma strip_c_b_a: "strip '' c b a'' = ''c b a''"
  by code_simp

lemma strip_c_b_a_left: "strip ''c b a '' = ''c b a''"
  by code_simp


lemma np_prod_rev3: "np_prod [x, y, z] = np_prod [z, y, x]"
  by (auto simp: np_prod_def mult.commute mult.left_commute)

lemma plan_forward:
  assumes "shape t = [x, y, z]"
  shows "rearrange_plan t ''a b c -> c b a'' Map.empty =
           Inr ([int x, int y, int z], [int z, int y, int x], [2, 1, 0])"
  using assms np_prod_rev3[of "int x" "int y" "int z"]
  by (simp add: rearrange_plan_def strip_a_b_c_left strip_c_b_a parse_a_b_c parse_c_b_a
        except_ValueError_def except_KeyError_def get_shape_dict_def resolve_group_def py_nth_def
        compute_output_shape_def flatten_axis_def)

lemma plan_backward:
  assumes "shape t = [x, y, z]"
  shows "rearrange_plan t ''c b a -> a b c'' Map.empty =
           Inr ([int x, int y, int z], [int z, int y, int x], [2, 1, 0])"
  using assms np_prod_rev3[of "int x" "int y" "int z"]
  by (simp add: rearrange_plan_def strip_c_b_a_left strip_a_b_c parse_a_b_c parse_c_b_a
        except_ValueError_def except_KeyError_def get_shape_dict_def resolve_group_def py_nth_def
        compute_output_shape_def flatten_axis_def)

lemma perform_reverse3:
  assumes "shape t = [x, y, z]"
  shows "perform t ([int x, int y, int z], [int z, int y, int x], [2, 1, 0]) =
           Inr \<lparr>shape = [z, y, x],
                data = map (\<lambda>k. data t ! ravel [x, y, z] (rev (unravel [z, y, x] k)))
                         [0..<prod_list [z, y, x]]\<rparr>"
proof -
  have r1: "reshape t [int x, int y, int z] = Inr \<lparr>shape = [x, y, z], data = data t\<rparr>"
    using reshape_nat[of "[x, y, z]" t] assms by simp
  have t2: "transpose_nd \<lparr>shape = [x, y, z], data = data t\<rparr> [2, 1, 0] =
           Inr \<lparr>shape = [z, y, x],
                data = map (\<lambda>k. data t ! ravel [x, y, z] (rev (unravel [z, y, x] k)))
                         [0..<prod_list [z, y, x]]\<rparr>"
    using transpose_reverse3[of "\<lparr>shape = [x, y, z], data = data t\<rparr>" x y z] by simp
  have r3: "reshape \<lparr>shape = [z, y, x],
                data = map (\<lambda>k. data t ! ravel [x, y, z] (rev (unravel [z, y, x] k)))
                         [0..<prod_list [z, y, x]]\<rparr> [int z, int y, int x] =
            Inr \<lparr>shape = [z, y, x],
                data = map (\<lambda>k. data t ! ravel [x, y, z] (rev (unravel [z, y, x] k)))
                         [0..<prod_list [z, y, x]]\<rparr>"
    using reshape_nat[of "[z, y, x]" "\<lparr>shape = [z, y, x],
                data = map (\<lambda>k. data t ! ravel [x, y, z] (rev (unravel [z, y, x] k)))
                         [0..<prod_list [z, y, x]]\<rparr>"] by simp
  have nid: "[2, 1, 0] \<noteq> map int [0..<length [2, 1, 0 :: int]]"
    by (simp add: upt_rec)
  show ?thesis
    unfolding perform_def using nid
    by (simp only: prod.case r1 t2 r3 sum.case if_False except_ValueError_def)
qed

text \<open>A size stored under a name that no group mentions is never read.\<close>

lemma add_axis_name_ids:
  assumes "add_axis_name name bg pe = Inr (bg1, pe1)"
    and "\<forall>g. Group g \<in> set (composition pe) \<longrightarrow> set g \<subseteq> identifiers pe"
    and "\<forall>g. bg = Some g \<longrightarrow> set g \<subseteq> identifiers pe"
  shows "(\<forall>g. Group g \<in> set (composition pe1) \<longrightarrow> set g \<subseteq> identifiers pe1)
       \<and> (\<forall>g. bg1 = Some g \<longrightarrow> set g \<subseteq> identifiers pe1)"
  using assms
  by (auto simp: add_axis_name_def split: if_splits option.splits) blast+

lemma process_tokens_ids:
  "process_tokens toks bg pe = Inr p \<Longrightarrow>
   \<forall>g. Group g \<in> set (composition pe) \<longrightarrow> set g \<subseteq> identifiers pe \<Longrightarrow>
   \<forall>g. bg = Some g \<longrightarrow> set g \<subseteq> identifiers pe \<Longrightarrow>
   \<forall>g. Group g \<in> set (composition p) \<longrightarrow> set g \<subseteq> identifiers p"
proof (induction toks arbitrary: bg pe)
  case Nil
  then show ?case by (simp split: if_splits)
next
  case (Cons tok toks)
  show ?case
  proof (cases "tok = ''(''")
    case True
    with Cons.prems(1) have "bg = None" and "process_tokens toks (Some []) pe = Inr p"
      by (simp_all split: if_splits)
    from Cons.IH[OF this(2)] Cons.prems(2) show ?thesis by simp
  next
    case open_no: False
    show ?thesis
    proof (cases "tok = '')''")
      case True
      with open_no Cons.prems(1) obtain g where g: "bg = Some g" "g \<noteq> []"
        and rec: "process_tokens toks None
                    (pe\<lparr>composition := composition pe @ [Group g],
                        actual_dim_count := actual_dim_count pe + 1\<rparr>) = Inr p"
        by (auto split: option.splits if_splits)
      have "\<forall>h. Group h \<in> set (composition (pe\<lparr>composition := composition pe @ [Group g],
                        actual_dim_count := actual_dim_count pe + 1\<rparr>))
              \<longrightarrow> set h \<subseteq> identifiers (pe\<lparr>composition := composition pe @ [Group g],
                        actual_dim_count := actual_dim_count pe + 1\<rparr>)"
        using Cons.prems(2,3) g by auto
      from Cons.IH[OF rec this] show ?thesis by simp
    next
      case False
      with open_no Cons.prems(1) obtain bg1 pe1 where
        a: "add_axis_name tok bg pe = Inr (bg1, pe1)"
        and rec: "process_tokens toks bg1
               (if bg1 = None then pe1\<lparr>actual_dim_count := actual_dim_count pe1 + 1\<rparr> else pe1)
               = Inr p"
        by (auto split: sum.splits)
      from add_axis_name_ids[OF a Cons.prems(2,3)]
      have i1: "\<forall>g. Group g \<in> set (composition pe1) \<longrightarrow> set g \<subseteq> identifiers pe1"
        and i2: "\<forall>g. bg1 = Some g \<longrightarrow> set g \<subseteq> identifiers pe1" by simp_all
      let ?pe2 = "if bg1 = None then pe1\<lparr>actual_dim_count := actual_dim_count pe1 + 1\<rparr> else pe1"
      have j1: "\<forall>g. Group g \<in> set (composition ?pe2) \<longrightarrow> set g \<subseteq> identifiers ?pe2"
        using i1 by simp
      have j2: "\<forall>g. bg1 = Some g \<longrightarrow> set g \<subseteq> identifiers ?pe2"
        using i2 by simp
      from Cons.IH[OF rec j1 j2] show ?thesis .
    qed
  qed
qed

lemma ParsedExpression_ids:
  assumes "ParsedExpression e = Inr p" and "Group g \<in> set (composition p)"
  shows "set g \<subseteq> identifiers p"
proof -
  from assms(1) obtain toks he where
    "process_tokens toks None
        \<lparr>has_ellipsis = he, identifiers = {}, composition = [], actual_dim_count = 0\<rparr> = Inr p"
    by (auto simp: ParsedExpression_def Let_def split: if_splits sum.splits)
  from process_tokens_ids[OF this] assms(2) show ?thesis by simp
qed

lemma resolve_group_extra:
  assumes "key \<notin> set item"
  shows "resolve_group shp item (sd(key \<mapsto> v), cur) =
           (case resolve_group shp item (sd, cur) of
              Inl e \<Rightarrow> Inl e
            | Inr (sd1, cur1) \<Rightarrow> Inr (sd1(key \<mapsto> v), cur1))"
proof -
  define sd' where "sd' = sd(key \<mapsto> v)"
  have same: "\<And>d. d \<in> set item \<Longrightarrow> sd' d = sd d"
    using assms by (auto simp: sd'_def)
  have tw: "\<And>u x. u \<in> set item \<Longrightarrow> sd'(u \<mapsto> x) = (sd(u \<mapsto> x))(key \<mapsto> v)"
    using assms by (auto simp: sd'_def fun_upd_twist)
  have f1: "filter (\<lambda>d. sd' d = None) item = filter (\<lambda>d. sd d = None) item"
    by (rule filter_cong) (simp_all add: same)
  have f2: "filter (\<lambda>d. sd' d \<noteq> None) item = filter (\<lambda>d. sd d \<noteq> None) item"
    by (rule filter_cong) (simp_all add: same)
  have f3: "map (\<lambda>d. the (sd' d)) item = map (\<lambda>d. the (sd d)) item"
    by (rule map_cong) (simp_all add: same)
  have f4: "map (\<lambda>d. the (sd' d)) (filter (\<lambda>d. sd d \<noteq> None) item)
            = map (\<lambda>d. the (sd d)) (filter (\<lambda>d. sd d \<noteq> None) item)"
    by (rule map_cong) (simp_all add: same)
  have goal: "resolve_group shp item (sd', cur) =
           (case resolve_group shp item (sd, cur) of
              Inl e \<Rightarrow> Inl e
            | Inr (sd1, cur1) \<Rightarrow> Inr (sd1(key \<mapsto> v), cur1))"
  proof (cases "py_nth shp cur")
    case (Inl e)
    then show ?thesis by (simp add: resolve_group_def)
  next
    case (Inr n)
    show ?thesis
    proof (cases "length item = 1")
      case True
      then have h: "hd item \<in> set item" by (cases item) simp_all
      show ?thesis
        using True Inr
        by (simp add: resolve_group_def Let_def same[OF h] tw[OF h] sd'_def[symmetric]
              split: option.splits)
    next
      case False
      show ?thesis
      proof (cases "filter (\<lambda>d. sd d = None) item = []")
        case True
        then show ?thesis
          using False Inr
          by (simp add: resolve_group_def Let_def f1 f3 sd'_def[symmetric] del: not_None_eq)
      next
        case ne: False
        then have "hd (filter (\<lambda>d. sd d = None) item) \<in> set (filter (\<lambda>d. sd d = None) item)"
          by (rule hd_in_set)
        then have h: "hd (filter (\<lambda>d. sd d = None) item) \<in> set item" by simp
        show ?thesis
          using False Inr ne
          by (simp add: resolve_group_def Let_def f1 f2 f4 tw[OF h] del: not_None_eq)
      qed
    qed
  qed
  then show ?thesis by (simp only: sd'_def)
qed

lemma shape_dict_loop_extra:
  "\<forall>g. Group g \<in> set items \<longrightarrow> key \<notin> set g \<Longrightarrow>
   shape_dict_loop shp comps items (sd(key \<mapsto> v), cur) =
     (case shape_dict_loop shp comps items (sd, cur) of
        Inl e \<Rightarrow> Inl e
      | Inr (sd1, cur1) \<Rightarrow> Inr (sd1(key \<mapsto> v), cur1))"
proof (induction items arbitrary: sd cur)
  case Nil
  show ?case
    by (simp only: shape_dict_loop.simps sum.case prod.case)
next
  case (Cons it items)
  show ?case
  proof (cases it)
    case (Group g)
    with Cons.prems have k: "key \<notin> set g" and rest: "\<forall>g. Group g \<in> set items \<longrightarrow> key \<notin> set g"
      by auto
    show ?thesis
    proof (cases "resolve_group shp g (sd, cur)")
      case (Inl e)
      then have "resolve_group shp g (sd(key \<mapsto> v), cur) = Inl e"
        by (simp only: resolve_group_extra[OF k] sum.case)
      with Inl show ?thesis
        by (simp only: Group shape_dict_loop.simps sum.case)
    next
      case (Inr st1)
      obtain sd1 cur1 where st1: "st1 = (sd1, cur1)"
        by (cases st1)
      from Inr st1 have "resolve_group shp g (sd(key \<mapsto> v), cur) = Inr (sd1(key \<mapsto> v), cur1)"
        by (simp only: resolve_group_extra[OF k] sum.case prod.case)
      with Inr st1 show ?thesis
        by (simp only: Group shape_dict_loop.simps sum.case Cons.IH[OF rest])
    qed
  next
    case Ellipsis
    from Cons.prems have rest: "\<forall>g. Group g \<in> set items \<longrightarrow> key \<notin> set g"
      by auto
    show ?thesis
      by (simp only: Ellipsis shape_dict_loop.simps prod.case Let_def Cons.IH[OF rest]
            if_distrib[of "\<lambda>r. case r of Inl e \<Rightarrow> Inl e | Inr (sd1, cur1) \<Rightarrow> Inr (sd1(key \<mapsto> v), cur1)"]
            sum.case)
  qed
qed

lemma get_shape_dict_extra:
  assumes "\<forall>g. Group g \<in> set (composition sp) \<longrightarrow> key \<notin> set g"
  shows "get_shape_dict t sp (ns(key \<mapsto> v)) =
           (case get_shape_dict t sp ns of Inl e \<Rightarrow> Inl e | Inr sd \<Rightarrow> Inr (sd(key \<mapsto> v)))"
proof (cases "shape_dict_loop (shape t) (composition sp) (composition sp) (ns, 0)")
  case (Inl e)
  then show ?thesis
    by (simp only: get_shape_dict_def shape_dict_loop_extra[OF assms] sum.case)
next
  case (Inr st1)
  obtain sd1 cur1 where st1: "st1 = (sd1, cur1)"
    by (cases st1)
  from Inr st1 show ?thesis
    by (simp only: get_shape_dict_def shape_dict_loop_extra[OF assms] sum.case prod.case)
qed

lemma flatten_axis_extra:
  "axis \<noteq> key \<Longrightarrow> flatten_axis (sd(key \<mapsto> v)) axis st = flatten_axis sd axis st"
  by (simp add: flatten_axis_def)

lemma flatten_axes_extra:
  "key \<notin> set item \<Longrightarrow> flatten_axes (sd(key \<mapsto> v)) item st = flatten_axes sd item st"
  by (induction item arbitrary: st) (auto simp: flatten_axis_extra split: sum.splits)

lemma source_pass_extra:
  "\<forall>g. Group g \<in> set items \<longrightarrow> key \<notin> set g \<Longrightarrow>
   source_pass shp (sd(key \<mapsto> v)) comps items st = source_pass shp sd comps items st"
proof (induction items arbitrary: st)
  case Nil
  then show ?case by simp
next
  case (Cons it items)
  show ?case
  proof (cases it)
    case (Group g)
    with Cons.prems have k: "key \<notin> set g" and rest: "\<forall>g. Group g \<in> set items \<longrightarrow> key \<notin> set g"
      by auto
    have h: "length g = 1 \<Longrightarrow> hd g \<noteq> key"
      using k by (cases g) auto
    show ?thesis
      using Cons.IH[OF rest] h
      by (simp add: Group flatten_axes_extra[OF k] flatten_axis_extra del: fun_upd_apply
            split: sum.splits)
  next
    case Ellipsis
    from Cons.prems have rest: "\<forall>g. Group g \<in> set items \<longrightarrow> key \<notin> set g"
      by auto
    show ?thesis
      using Cons.IH[OF rest] by (simp add: Ellipsis Let_def del: fun_upd_apply)
  qed
qed

lemma lookup_all_extra:
  "key \<notin> set item \<Longrightarrow> lookup_all (sd(key \<mapsto> v)) item = lookup_all sd item"
  by (induction item) (auto split: option.splits sum.splits)

lemma target_pass_extra:
  "\<forall>g. Group g \<in> set items \<longrightarrow> key \<notin> set g \<Longrightarrow>
   target_pass shp (sd(key \<mapsto> v)) pos ed items st = target_pass shp sd pos ed items st"
proof (induction items arbitrary: st)
  case Nil
  then show ?case by simp
next
  case (Cons it items)
  show ?case
  proof (cases it)
    case (Group g)
    with Cons.prems have k: "key \<notin> set g" and rest: "\<forall>g. Group g \<in> set items \<longrightarrow> key \<notin> set g"
      by auto
    have h: "length g = 1 \<Longrightarrow> (sd(key \<mapsto> v)) (hd g) = sd (hd g)"
      using k by (cases g) auto
    show ?thesis
      by (cases st)
         (simp add: Group lookup_all_extra[OF k] h Cons.IH[OF rest] del: fun_upd_apply
            split: sum.splits option.splits)
  next
    case Ellipsis
    from Cons.prems have rest: "\<forall>g. Group g \<in> set items \<longrightarrow> key \<notin> set g"
      by auto
    show ?thesis
      using Cons.IH[OF rest]
      by (cases st; cases ed)
         (simp_all add: Ellipsis del: fun_upd_apply split: sum.splits)
  qed
qed

lemma compute_output_shape_extra:
  assumes "\<forall>g. Group g \<in> set (composition sp) \<longrightarrow> key \<notin> set g"
    and "\<forall>g. Group g \<in> set (composition tp) \<longrightarrow> key \<notin> set g"
  shows "compute_output_shape t tp sp (sd(key \<mapsto> v)) = compute_output_shape t tp sp sd"
  by (simp add: compute_output_shape_def source_pass_extra[OF assms(1)]
        target_pass_extra[OF assms(2)] del: fun_upd_apply cong: sum.case_cong)

text \<open>The body of \<open>rearrange\<close> never reads a size stored under an unused name.\<close>

lemma rearrange_extra_key:
  assumes "\<forall>half \<in> set (split_arrow pattern []). key \<notin> half_identifiers half"
  shows "rearrange tensor pattern (named_sizes(key \<mapsto> v)) = rearrange tensor pattern named_sizes"
proof -
  have plan: "rearrange_plan tensor pattern (named_sizes(key \<mapsto> v))
              = rearrange_plan tensor pattern named_sizes"
  proof (cases "\<exists>src tgt sp tp. split_arrow pattern [] = [src, tgt]
                  \<and> ParsedExpression (strip src) = Inr sp
                  \<and> ParsedExpression (strip tgt) = Inr tp")
    case False
    then show ?thesis
      by (auto simp: rearrange_plan_def simp del: fun_upd_apply split: list.splits sum.splits)
  next
    case True
    then obtain src tgt sp tp where sp: "split_arrow pattern [] = [src, tgt]"
      and ps: "ParsedExpression (strip src) = Inr sp"
      and pt: "ParsedExpression (strip tgt) = Inr tp"
      by blast
    from assms sp ps pt have ks: "key \<notin> identifiers sp" and kt: "key \<notin> identifiers tp"
      by (simp_all add: half_identifiers_def)
    have gs: "\<forall>g. Group g \<in> set (composition sp) \<longrightarrow> key \<notin> set g"
      using ParsedExpression_ids[OF ps] ks by blast
    have gt: "\<forall>g. Group g \<in> set (composition tp) \<longrightarrow> key \<notin> set g"
      using ParsedExpression_ids[OF pt] kt by blast
    show ?thesis
    proof (cases "get_shape_dict tensor sp named_sizes")
      case (Inl e)
      then show ?thesis
        by (simp add: rearrange_plan_def sp ps pt get_shape_dict_extra[OF gs] Let_def
              del: fun_upd_apply)
    next
      case (Inr sd)
      then show ?thesis
        by (simp add: rearrange_plan_def sp ps pt get_shape_dict_extra[OF gs]
              compute_output_shape_extra[OF gs gt] except_ValueError_def Let_def
              del: fun_upd_apply)
    qed
  qed
  then show ?thesis
    by (simp add: rearrange_def)
qed

text \<open>Which stage raises which error.\<close>

lemma split_arrow_nonempty: "split_arrow p cur \<noteq> []"
  by (induction p cur rule: split_arrow.induct) auto

lemma split_arrow_contains:
  "contains_arrow p = (length (split_arrow p cur) \<noteq> 1)"
  by (induction p cur rule: split_arrow.induct) (auto simp: split_arrow_nonempty)

lemma rearrange_plan_parsed:
  assumes "split_arrow pattern [] = [src, tgt]"
    and "ParsedExpression (strip src) = Inr sp"
    and "ParsedExpression (strip tgt) = Inr tp"
  shows "rearrange_plan t pattern ns =
     (let rank = int (length (shape t));
          source_dims0 = int (actual_dim_count sp);
          source_dims = (if has_ellipsis sp then source_dims0 + (rank - source_dims0)
                         else source_dims0)
      in if source_dims \<noteq> rank then
           (if source_dims < rank then Inl (EinopsError RequiresFewerDimensions)
            else Inl (EinopsError RequiresMoreDimensions))
         else resolve_and_plan t sp tp ns)"
proof -
  have "contains_arrow pattern"
    using assms(1) by (simp add: split_arrow_contains[of pattern "[]"])
  then show ?thesis
    by (simp add: rearrange_plan_def resolve_and_plan_def assms Let_def)
qed

lemma resolve_group_error:
  "resolve_group shp item st = Inl e \<Longrightarrow> \<not> check_error e"
  by (cases st)
     (auto simp: resolve_group_def py_nth_def Let_def check_error_def
        split: option.splits if_splits)

lemma shape_dict_loop_error:
  "shape_dict_loop shp comps items st = Inl e \<Longrightarrow> \<not> check_error e"
proof (induction items arbitrary: st)
  case Nil
  then show ?case by simp
next
  case (Cons it items)
  show ?case
  proof (cases it)
    case (Group g)
    show ?thesis
    proof (cases "resolve_group shp g st")
      case (Inl e1)
      with Cons.prems Group have "e1 = e" by simp
      with resolve_group_error[OF Inl] show ?thesis by simp
    next
      case (Inr st1)
      with Cons.prems Group have "shape_dict_loop shp comps items st1 = Inl e" by simp
      from Cons.IH[OF this] show ?thesis .
    qed
  next
    case Ellipsis
    obtain sd cur where st: "st = (sd, cur)" by (cases st)
    show ?thesis
    proof (cases "int (length shp) - cur - remaining_dims comps < 0")
      case True
      with Cons.prems Ellipsis st have "e = EinopsError MoreDimensionsThanTensor"
        by (simp add: Let_def)
      then show ?thesis by (simp add: check_error_def)
    next
      case False
      with Cons.prems Ellipsis st
      have "shape_dict_loop shp comps items
              (sd, cur + (int (length shp) - cur - remaining_dims comps)) = Inl e"
        by (simp add: Let_def)
      from Cons.IH[OF this] show ?thesis .
    qed
  qed
qed

lemma get_shape_dict_error:
  "get_shape_dict t sp ns = Inl e \<Longrightarrow> \<not> check_error e"
  by (auto simp: get_shape_dict_def split: sum.splits dest: shape_dict_loop_error)

lemma flatten_axis_error:
  "flatten_axis sd a st = Inl e \<Longrightarrow> \<not> check_error e"
  by (auto simp: flatten_axis_def check_error_def split: option.splits)

lemma flatten_axes_error:
  "flatten_axes sd item st = Inl e \<Longrightarrow> \<not> check_error e"
  by (induction item arbitrary: st) (auto split: sum.splits dest: flatten_axis_error)

lemma source_pass_error:
  "source_pass shp sd comps items st = Inl e \<Longrightarrow> \<not> check_error e"
proof (induction items arbitrary: st)
  case Nil
  then show ?case by simp
next
  case (Cons it items)
  show ?case
  proof (cases it)
    case (Group g)
    with Cons.prems Cons.IH show ?thesis
      by (auto split: sum.splits if_splits dest: flatten_axis_error flatten_axes_error)
  next
    case Ellipsis
    with Cons.prems Cons.IH show ?thesis
      by (auto simp: Let_def)
  qed
qed

lemma lookup_all_error:
  "lookup_all m item = Inl e \<Longrightarrow> \<not> check_error e"
  by (induction item) (auto simp: check_error_def split: option.splits sum.splits)

lemma nth_all_error:
  "nth_all shp ds = Inl e \<Longrightarrow> \<not> check_error e"
  by (induction ds) (auto simp: check_error_def py_nth_def Let_def split: sum.splits if_splits)

lemma target_pass_error:
  "target_pass shp sd pos ed items st = Inl e \<Longrightarrow> \<not> check_error e"
proof (induction items arbitrary: st)
  case Nil
  then show ?case by simp
next
  case (Cons it items)
  obtain fs perm where st: "st = (fs, perm)" by (cases st)
  show ?case
  proof (cases it)
    case (Group g)
    with Cons.prems Cons.IH st show ?thesis
      by (auto simp: check_error_def split: sum.splits if_splits option.splits
            dest: lookup_all_error)
  next
    case Ellipsis
    with Cons.prems Cons.IH st show ?thesis
      by (auto simp: check_error_def split: sum.splits option.splits dest: nth_all_error)
  qed
qed

lemma compute_output_shape_error:
  "compute_output_shape t tp sp sd = Inl e \<Longrightarrow> \<not> check_error e"
  by (auto simp: compute_output_shape_def check_error_def
        split: sum.splits if_splits dest: source_pass_error target_pass_error)

lemma reshape_error: "reshape t s = Inl e \<Longrightarrow> e = ValueError"
  by (auto simp: reshape_def Let_def split: if_splits)

lemma resolve_group_cur:
  "resolve_group shp item (sd, cur) = Inr (sd1, cur1) \<Longrightarrow> cur1 = cur + 1"
  by (auto simp: resolve_group_def Let_def split: sum.splits if_splits option.splits)

lemma transpose_nd_error:
  assumes "transpose_nd t axes = Inl e"
  shows "e = ValueError"
proof (cases "length axes \<noteq> length (shape t)
        \<or> (\<exists>a \<in> set (map (\<lambda>a. if a < 0 then a + int (length (shape t)) else a) axes).
               a < 0 \<or> int (length (shape t)) \<le> a)
        \<or> \<not> distinct (map (\<lambda>a. if a < 0 then a + int (length (shape t)) else a) axes)")
  case True
  then have "transpose_nd t axes = Inl ValueError"
    by (simp only: transpose_nd_def Let_def if_True)
  with assms show ?thesis by simp
next
  case False
  then have "\<exists>r. transpose_nd t axes = Inr r"
    by (simp only: transpose_nd_def Let_def if_False sum.inject simp_thms)
  with assms show ?thesis by auto
qed

lemma perform_error:
  assumes "perform t plan = Inl e"
  shows "e = EinopsError ShapeMismatchNumpy"
proof -
  obtain intermediate fin perm where plan: "plan = (intermediate, fin, perm)"
    by (cases plan)
  define r where "r = (if perm = map int [0..<length perm] then reshape t fin
         else
           (case reshape t intermediate of
              Inl e \<Rightarrow> Inl e
            | Inr t1 \<Rightarrow>
                (case transpose_nd t1 perm of
                   Inl e \<Rightarrow> Inl e
                 | Inr t2 \<Rightarrow> reshape t2 fin)))"
  have inner: "e1 = ValueError" if "r = Inl e1" for e1
    using that unfolding r_def
    by (auto split: if_splits sum.splits dest: reshape_error transpose_nd_error)
  have "perform t plan = except_ValueError ShapeMismatchNumpy r"
    by (simp add: perform_def plan r_def)
  with assms have "except_ValueError ShapeMismatchNumpy r = Inl e" by simp
  then show ?thesis
    using inner by (cases r) (auto simp: except_ValueError_def split: error.splits)
qed

lemma except_ValueError_Inl:
  "except_ValueError msg (Inl e1) = Inl (if e1 = ValueError then EinopsError msg else e1)"
  by (cases e1) (simp_all add: except_ValueError_def)

lemma except_ValueError_Inr: "except_ValueError msg (Inr x) = Inr x"
  by (simp add: except_ValueError_def)

lemma except_KeyError_Inl:
  "except_KeyError (Inl e1) =
     Inl (case e1 of KeyError k \<Rightarrow> EinopsError (UnknownDimensionKey k) | _ \<Rightarrow> e1)"
  by (cases e1) (simp_all add: except_KeyError_def)

lemma except_KeyError_Inr: "except_KeyError (Inr x) = Inr x"
  by (simp add: except_KeyError_def)

lemma resolve_and_plan_error:
  assumes "resolve_and_plan t sp tp ns = Inl e"
  shows "e \<noteq> EinopsError RequiresFewerDimensions \<and> e \<noteq> EinopsError RequiresMoreDimensions
         \<and> (\<forall>names. e = EinopsError (UnknownDimensions names) \<longrightarrow>
               \<not> identifiers tp \<subseteq> identifiers sp)"
proof (cases "get_shape_dict t sp ns")
  case (Inl e1)
  from get_shape_dict_error[OF Inl] have n: "\<not> check_error e1" .
  from assms Inl have "e = (if e1 = ValueError then EinopsError CannotInferSizes else e1)"
    by (simp add: resolve_and_plan_def except_ValueError_Inl)
  with n show ?thesis
    by (auto simp: check_error_def split: if_splits)
next
  case (Inr sd)
  show ?thesis
  proof (cases "identifiers tp - {''...''} - (identifiers sp - {''...''}) \<noteq> {}")
    case True
    with assms Inr have "e = EinopsError (UnknownDimensions
                               (identifiers tp - {''...''} - (identifiers sp - {''...''})))"
      by (simp add: resolve_and_plan_def except_ValueError_Inr Let_def)
    with True show ?thesis by auto
  next
    case False
    with assms Inr have k: "except_KeyError (compute_output_shape t tp sp sd) = Inl e"
      by (simp add: resolve_and_plan_def except_ValueError_Inr Let_def)
    then obtain e1 where c: "compute_output_shape t tp sp sd = Inl e1"
      and e: "e = (case e1 of KeyError k \<Rightarrow> EinopsError (UnknownDimensionKey k) | _ \<Rightarrow> e1)"
      by (cases "compute_output_shape t tp sp sd")
         (simp_all add: except_KeyError_Inl except_KeyError_Inr)
    from compute_output_shape_error[OF c] e show ?thesis
      by (cases e1) (auto simp: check_error_def)
  qed
qed

lemma shape_dict_loop_append:
  "shape_dict_loop shp comps (xs @ ys) st =
     (case shape_dict_loop shp comps xs st of
        Inl e \<Rightarrow> Inl e
      | Inr st1 \<Rightarrow> shape_dict_loop shp comps ys st1)"
proof (induction xs arbitrary: st)
  case Nil
  then show ?case by simp
next
  case (Cons it xs)
  show ?case
  proof (cases it)
    case (Group g)
    with Cons.IH show ?thesis
      by (simp split: sum.splits)
  next
    case Ellipsis
    obtain sd cur where "st = (sd, cur)" by (cases st)
    with Cons.IH Ellipsis show ?thesis
      by (simp add: Let_def)
  qed
qed

lemma shape_dict_loop_groups:
  "shape_dict_loop shp comps xs (sd, cur) = Inr (sd1, cur1) \<Longrightarrow> Ellipsis \<notin> set xs \<Longrightarrow>
   cur1 = cur + int (length xs)"
proof (induction xs arbitrary: sd cur)
  case Nil
  then show ?case by simp
next
  case (Cons it xs)
  from Cons.prems(2) obtain g where it: "it = Group g"
    by (cases it) auto
  with Cons.prems(1) obtain sd2 cur2 where
    r: "resolve_group shp g (sd, cur) = Inr (sd2, cur2)"
    and l: "shape_dict_loop shp comps xs (sd2, cur2) = Inr (sd1, cur1)"
    by (auto split: sum.splits)
  from Cons.prems(2) have "Ellipsis \<notin> set xs" by simp
  from Cons.IH[OF l this] resolve_group_cur[OF r] show ?case by simp
qed

lemma index_of_first: "x \<notin> set pre \<Longrightarrow> index_of (pre @ x # post) x = length pre"
  by (induction pre) (auto simp: index_of_def)

lemma groups_only: "Ellipsis \<notin> set xs \<Longrightarrow> filter is_Group xs = xs"
proof (induction xs)
  case Nil
  then show ?case by simp
next
  case (Cons a xs)
  then show ?case by (cases a) simp_all
qed


section \<open>Exceptions that leave rearrange\<close>

text \<open>
  C1. The claim: every call of \<open>rearrange\<close> returns an array or raises an \<open>EinopsError\<close>.
  On a one-dimensional array and the pattern \<open>a -> a ...\<close> (an ellipsis in the target,
  none in the source) the second loop of \<open>_compute_output_shape\<close> reads the unbound local
  \<open>ellipsis_dims\<close>: the call raises \<open>UnboundLocalError\<close>, which no handler of
  \<open>rearrange\<close> catches.
\<close>

theorem C1_target_ellipsis_unbound_local:
  "rearrange \<lparr>shape = [2], data = [0, 0 :: int]\<rparr> ''a -> a ...'' Map.empty
     = Inl UnboundLocalError"
  by code_simp

text \<open>
  C3. The claim: a pattern with two or more \<open>->\<close> raises a pattern syntax error.
  \<open>pattern.split('->')\<close> splits at every separator, so \<open>a -> b -> c\<close> gives three pieces
  and the unpacking into \<open>source, target\<close> raises \<open>ValueError\<close>, for every array and
  every \<open>named_sizes\<close>.
\<close>

theorem C3_two_arrows_value_error:
  "rearrange t ''a -> b -> c'' ns = Inl ValueError"
  by (simp add: rearrange_def rearrange_plan_def)

text \<open>
  C4. The claim: every whitespace character closes the current token, so \<open>a<TAB>b\<close>
  parses as \<open>a b\<close> does. The tokenizer accepts a tab as a character of the pattern
  (\<open>char.isspace()\<close>) but only \<open>(\<close>, \<open>)\<close> and the space close a token: the tab is
  kept inside the token, which is then rejected as an axis name.
\<close>

theorem C4_tab_is_not_a_delimiter:
  "isspace (CHR 0x09)
   \<and> ParsedExpression [CHR ''a'', CHR 0x09, CHR ''b'']
       = Inl (EinopsError (InvalidAxisName [CHR ''a'', CHR 0x09, CHR ''b'']))
   \<and> ParsedExpression ''a b''
       = Inr \<lparr>has_ellipsis = False, identifiers = {''a'', ''b''},
              composition = [Group [''a''], Group [''b'']], actual_dim_count = 2\<rparr>"
  by code_simp

section \<open>The rank check and the ellipsis\<close>

text \<open>
  C2, as stated: a source pattern with an ellipsis whose dimension count exceeds the
  rank raises the "pattern requires fewer/more dimensions" error. It does not: with an
  ellipsis \<open>rearrange\<close> adds \<open>len(tensor.shape) - source_dims\<close> to \<open>source_dims\<close>, which
  then always equals the rank. On a one-dimensional array \<open>a b ... -> a b\<close> raises
  \<open>IndexError\<close> and \<open>... a b -> a b\<close> raises the resolver's own error.
\<close>

theorem C2_counterexample:
  "rearrange \<lparr>shape = [2], data = [0, 0 :: int]\<rparr> ''a b ... -> a b'' Map.empty
     = Inl IndexError
   \<and> rearrange \<lparr>shape = [2], data = [0, 0 :: int]\<rparr> ''... a b -> a b'' Map.empty
     = Inl (EinopsError MoreDimensionsThanTensor)"
  by code_simp

text \<open>
  C2, amended: when both halves parse and the source has an ellipsis, \<open>rearrange\<close> never
  raises the "pattern requires fewer/more dimensions" error (the rank check cannot fire);
  and when the source has more groups than the array has dimensions and the groups before
  the ellipsis resolve against the leading dimensions, \<open>rearrange\<close> raises the resolver's
  \<open>EinopsError\<close> "Pattern has more dimensions than tensor".
\<close>

theorem C2_rank_check_with_ellipsis:
  assumes "split_arrow pattern [] = [src, tgt]"
    and "ParsedExpression (strip src) = Inr sp"
    and "ParsedExpression (strip tgt) = Inr tp"
    and "has_ellipsis sp"
  shows "rearrange t pattern ns \<noteq> Inl (EinopsError RequiresFewerDimensions)
       \<and> rearrange t pattern ns \<noteq> Inl (EinopsError RequiresMoreDimensions)
       \<and> (\<forall>pre post st.
             composition sp = pre @ Ellipsis # post \<and> Ellipsis \<notin> set pre
             \<and> shape_dict_loop (shape t) (composition sp) pre (ns, 0) = Inr st
             \<and> length (shape t) < length (filter is_Group (composition sp))
             \<longrightarrow> rearrange t pattern ns = Inl (EinopsError MoreDimensionsThanTensor))"
proof -
  have plan: "rearrange_plan t pattern ns = resolve_and_plan t sp tp ns"
    using assms(4) by (simp add: rearrange_plan_parsed[OF assms(1-3)] Let_def)
  have a: "rearrange t pattern ns \<noteq> Inl (EinopsError RequiresFewerDimensions)
       \<and> rearrange t pattern ns \<noteq> Inl (EinopsError RequiresMoreDimensions)"
  proof (cases "resolve_and_plan t sp tp ns")
    case (Inl e)
    with resolve_and_plan_error[OF Inl] show ?thesis
      by (simp add: rearrange_def plan)
  next
    case (Inr p)
    show ?thesis
    proof (cases "perform t p")
      case (Inl e)
      from perform_error[OF Inl] Inl Inr show ?thesis
        by (simp add: rearrange_def plan)
    next
      case r: (Inr r)
      with Inr show ?thesis
        by (simp add: rearrange_def plan)
    qed
  qed
  have b: "rearrange t pattern ns = Inl (EinopsError MoreDimensionsThanTensor)"
    if c: "composition sp = pre @ Ellipsis # post" and p: "Ellipsis \<notin> set pre"
      and l: "shape_dict_loop (shape t) (composition sp) pre (ns, 0) = Inr st"
      and k: "length (shape t) < length (filter is_Group (composition sp))"
    for pre post st
  proof -
    obtain sd1 cur1 where st: "st = (sd1, cur1)" by (cases st)
    from shape_dict_loop_groups[OF l[unfolded st] p] have cur1: "cur1 = int (length pre)"
      by simp
    have idx: "index_of (pre @ Ellipsis # post) Ellipsis = length pre"
      using p by (rule index_of_first)
    have rem: "remaining_dims (composition sp) = int (length (filter is_Group post))"
      by (simp add: remaining_dims_def c idx)
    have cnt: "length (filter is_Group (composition sp))
                 = length pre + length (filter is_Group post)"
      by (simp add: c groups_only[OF p])
    have "shape_dict_loop (shape t) (composition sp) (composition sp) (ns, 0)
            = Inl (EinopsError MoreDimensionsThanTensor)"
      using k
      by (simp add: c[symmetric] shape_dict_loop_append[of _ _ pre "Ellipsis # post", unfolded c[symmetric]]
            l st cur1 rem cnt Let_def)
    then have "get_shape_dict t sp ns = Inl (EinopsError MoreDimensionsThanTensor)"
      by (simp add: get_shape_dict_def)
    then have "resolve_and_plan t sp tp ns = Inl (EinopsError MoreDimensionsThanTensor)"
      by (simp add: resolve_and_plan_def except_ValueError_def)
    then show ?thesis
      by (simp add: rearrange_def plan)
  qed
  from a b show ?thesis by blast
qed

theorem C2_witness:
  "rearrange \<lparr>shape = [2, 3], data = replicate 6 (0 :: int)\<rparr> ''a ... b c -> a b c''
       Map.empty
     = Inl (EinopsError MoreDimensionsThanTensor)"
proof -
  let ?sp = "\<lparr>has_ellipsis = True, identifiers = {''a'', ''b'', ''c''},
                  composition = [Group [''a''], Ellipsis, Group [''b''], Group [''c'']],
                  actual_dim_count = 4\<rparr>"
  let ?t = "\<lparr>shape = [2, 3], data = replicate 6 (0 :: int)\<rparr>"
  have 1: "split_arrow ''a ... b c -> a b c'' [] = [''a ... b c '', '' a b c'']"
    by code_simp
  have 2: "ParsedExpression (strip ''a ... b c '') = Inr ?sp"
    by code_simp
  have 3: "ParsedExpression (strip '' a b c'') =
             Inr \<lparr>has_ellipsis = False, identifiers = {''a'', ''b'', ''c''},
                  composition = [Group [''a''], Group [''b''], Group [''c'']],
                  actual_dim_count = 3\<rparr>"
    by code_simp
  have 4: "has_ellipsis ?sp"
    by simp
  have l: "shape_dict_loop (shape ?t) (composition ?sp) [Group [''a'']] (Map.empty, 0)
             = Inr ([''a'' \<mapsto> 2], 1)"
    by (simp add: resolve_group_def py_nth_def)
  from C2_rank_check_with_ellipsis [OF 1 2 3 4, of ?t Map.empty]
  have "composition ?sp = pre @ Ellipsis # post \<and> Ellipsis \<notin> set pre
        \<and> shape_dict_loop (shape ?t) (composition ?sp) pre (Map.empty, 0) = Inr st
        \<and> length (shape ?t) < length (filter is_Group (composition ?sp))
        \<longrightarrow> rearrange ?t ''a ... b c -> a b c'' Map.empty
              = Inl (EinopsError MoreDimensionsThanTensor)" for pre post st
    by blast
  from this [of "[Group [''a'']]" "[Group [''b''], Group [''c'']]" "([''a'' \<mapsto> 2], 1)"] l
  show ?thesis
    by simp
qed

section \<open>Inference of one unknown axis\<close>

text \<open>
  C7, as stated: in every group of several axes with exactly one unknown axis the resolver
  binds the unknown to the quotient when the product of the known sizes divides the
  actual size, and raises "Cannot divide" otherwise. With \<open>a = b = 2^32\<close> the product
  \<open>np.prod\<close> wraps to 0 and on a dimension of size 6 the resolver binds \<open>c\<close> to 0, though
  \<open>2^64\<close> does not divide 6; with \<open>a = 0\<close> it binds \<open>b\<close> to 0 likewise.
\<close>

theorem C7_counterexample:
  "resolve_group [6] [''a'', ''b'', ''c''] ([''a'' \<mapsto> 2 ^ 32, ''b'' \<mapsto> 2 ^ 32], 0)
     = Inr ([''a'' \<mapsto> 2 ^ 32, ''b'' \<mapsto> 2 ^ 32, ''c'' \<mapsto> 0], 1)
   \<and> \<not> ((2 :: int) ^ 32 * 2 ^ 32) dvd 6
   \<and> resolve_group [6] [''a'', ''b''] ([''a'' \<mapsto> 0], 0)
     = Inr ([''a'' \<mapsto> 0, ''b'' \<mapsto> 0], 1)"
  by (simp add: resolve_group_def py_nth_def np_prod_def wrap64_def np_mod_def np_floordiv_def
        Let_def)

text \<open>
  C7, amended: in a group of several axes with exactly one axis \<open>u\<close> not yet in the
  dictionary, whose known sizes have a product \<open>kp\<close> that is not zero and lies within the
  64-bit range (from \<open>-2^63\<close> up to, not including, \<open>2^63\<close>), the resolver binds \<open>u\<close> to the
  quotient of the actual size by \<open>kp\<close> when \<open>kp\<close> divides it, and raises "Cannot divide"
  otherwise. On an array of shape \<open>(6, 8)\<close>, \<open>(a b) c -> a b c\<close> with \<open>b = 2\<close> returns shape
  \<open>(3, 2, 8)\<close>; without \<open>b\<close> the group has two unknowns and the call raises the error for
  several unknown dimensions.
\<close>

theorem C7_one_unknown_quotient:
  assumes "1 < length item" and "0 \<le> cur" and "cur < int (length shp)"
    and "filter (\<lambda>d. sd d = None) item = [u]"
    and "kp = prod_list (map (\<lambda>d. the (sd d)) (filter (\<lambda>d. sd d \<noteq> None) item))"
    and "kp \<noteq> 0" and "- (2 ^ 63) \<le> kp" and "kp < 2 ^ 63"
  shows "resolve_group shp item (sd, cur) =
           (if kp dvd int (shp ! nat cur)
            then Inr (sd(u \<mapsto> int (shp ! nat cur) div kp), cur + 1)
            else Inl (EinopsError (CannotDivide (int (shp ! nat cur)) kp)))
         \<and> rearrange \<lparr>shape = [6, 8], data = replicate 48 (0 :: int)\<rparr> ''(a b) c -> a b c''
               [''b'' \<mapsto> 2]
             = Inr \<lparr>shape = [3, 2, 8], data = replicate 48 0\<rparr>
         \<and> rearrange \<lparr>shape = [6, 8], data = replicate 48 (0 :: int)\<rparr> ''(a b) c -> a b c''
               Map.empty
             = Inl (EinopsError (MultipleUnknownDimensions [''a'', ''b'']))"
proof -
  have w: "np_prod (map (\<lambda>d. the (sd d)) (filter (\<lambda>d. sd d \<noteq> None) item)) = kp"
    using assms(7,8) unfolding assms(5) by (rule np_prod_small)
  have nth: "py_nth shp cur = Inr (shp ! nat cur)"
    using assms(2,3) by (simp add: py_nth_def)
  have len: "length item \<noteq> 1"
    using assms(1) by simp
  have step: "resolve_group shp item (sd, cur) =
           (if kp dvd int (shp ! nat cur)
            then Inr (sd(u \<mapsto> int (shp ! nat cur) div kp), cur + 1)
            else Inl (EinopsError (CannotDivide (int (shp ! nat cur)) kp)))"
    unfolding resolve_group_def
    using assms(6) len
    by (simp add: nth assms(4) w np_mod_def np_floordiv_def mod_eq_0_iff_dvd Let_def
          del: not_None_eq)
  have ex1: "rearrange \<lparr>shape = [6, 8], data = replicate 48 (0 :: int)\<rparr> ''(a b) c -> a b c''
               [''b'' \<mapsto> 2]
             = Inr \<lparr>shape = [3, 2, 8], data = replicate 48 0\<rparr>"
    by code_simp
  have ex2: "rearrange \<lparr>shape = [6, 8], data = replicate 48 (0 :: int)\<rparr> ''(a b) c -> a b c''
               Map.empty
             = Inl (EinopsError (MultipleUnknownDimensions [''a'', ''b'']))"
    by code_simp
  show ?thesis
    using step ex1 ex2 by (intro conjI)
qed

theorem C7_witness:
  "resolve_group [6, 8] [''a'', ''b''] ([''b'' \<mapsto> 2], 0)
     = Inr ([''b'' \<mapsto> 2, ''a'' \<mapsto> 3], 1)
   \<and> resolve_group [7, 8] [''a'', ''b''] ([''b'' \<mapsto> 2], 0)
     = Inl (EinopsError (CannotDivide 7 2))"
  using C7_one_unknown_quotient [of "[''a'', ''b'']" 0 "[6, 8]" "[''b'' \<mapsto> 2]" "''a''" 2]
        C7_one_unknown_quotient [of "[''a'', ''b'']" 0 "[7, 8]" "[''b'' \<mapsto> 2]" "''a''" 2]
  by simp

section \<open>A source axis absent from the target\<close>




section \<open>A named size of zero\<close>

text \<open>
  C10, as stated: with \<open>a = 0\<close> the pattern \<open>(a b) c -> a b c\<close> on an array of shape
  \<open>(6, 8)\<close> raises \<open>ZeroDivisionError\<close>. The known product is a numpy integer, its
  remainder and quotient by zero are 0, and the call ends in the \<open>EinopsError\<close> that wraps
  the \<open>ValueError\<close> of the reshape.
\<close>

theorem C10_counterexample:
  "rearrange \<lparr>shape = [6, 8], data = replicate 48 (0 :: int)\<rparr> ''(a b) c -> a b c''
      [''a'' \<mapsto> 0]
     \<noteq> Inl ZeroDivisionError"
proof -
  have "rearrange \<lparr>shape = [6, 8], data = replicate 48 (0 :: int)\<rparr> ''(a b) c -> a b c''
          [''a'' \<mapsto> 0]
        = Inl (EinopsError ShapeMismatchNumpy)"
    by code_simp
  then show ?thesis by simp
qed

text \<open>
  C10, amended: \<open>named_sizes\<close> values are not validated. With \<open>a = 0\<close> and the pattern
  \<open>(a b) c -> a b c\<close>, on every two-dimensional array that has elements, the zero known
  product binds \<open>b\<close> to 0 and the call raises the \<open>EinopsError\<close> "Shape Mismatch" of the
  failed reshape.
\<close>

theorem C10_zero_named_size:
  assumes "shape t = [m, n]" and "m * n \<noteq> 0"
  shows "rearrange t ''(a b) c -> a b c'' [''a'' \<mapsto> 0] = Inl (EinopsError ShapeMismatchNumpy)"
proof -
  have plan: "rearrange_plan t ''(a b) c -> a b c'' [''a'' \<mapsto> 0]
          = Inr ([0, 0, int n], [0, 0, int n], [0, 1, 2])"
    using assms(1)
    by (simp add: rearrange_plan_def strip_ab_c strip_a_b_c parse_ab_c parse_a_b_c
        except_ValueError_def except_KeyError_def get_shape_dict_def resolve_group_def py_nth_def
        compute_output_shape_def flatten_axis_def np_prod_def wrap64_def np_mod_def
        np_floordiv_def)
  show ?thesis
    unfolding rearrange_def plan
    using assms
    by (simp add: perform_def reshape_def except_ValueError_def upt_rec)
qed

theorem C10_witness:
  "rearrange \<lparr>shape = [6, 8], data = replicate 48 (0 :: int)\<rparr> ''(a b) c -> a b c''
      [''a'' \<mapsto> 0]
     = Inl (EinopsError ShapeMismatchNumpy)"
  using C10_zero_named_size [of "\<lparr>shape = [6, 8], data = replicate 48 (0 :: int)\<rparr>" 6 8]
  by simp

section \<open>Reversing the axes twice\<close>

text \<open>
  C6. For every three-dimensional array \<open>t\<close> (its elements stored in row-major order, as
  many as its shape says), \<open>rearrange(t, "a b c -> c b a")\<close> succeeds with some array
  \<open>r\<close>, and \<open>rearrange(r, "c b a -> a b c")\<close> succeeds and is \<open>t\<close> again: the same shape
  and the same elements.
\<close>

theorem C6_roundtrip:
  assumes "wf_ndarray t" and "length (shape t) = 3"
  shows "\<exists>r. rearrange t ''a b c -> c b a'' Map.empty = Inr r
            \<and> rearrange r ''c b a -> a b c'' Map.empty = Inr t"
proof -
  from assms(2) obtain a b c where sh: "shape t = [a, b, c]"
    by (auto simp: numeral_3_eq_3 length_Suc_conv)
  let ?d = "map (\<lambda>k. data t ! ravel [a, b, c] (rev (unravel [c, b, a] k)))
                         [0..<prod_list [c, b, a]]"
  let ?r = "\<lparr>shape = [c, b, a], data = ?d\<rparr>"
  have first: "rearrange t ''a b c -> c b a'' Map.empty = Inr ?r"
    by (simp only: rearrange_def plan_forward[OF sh] sum.case perform_reverse3[OF sh])
  have shr: "shape ?r = [c, b, a]"
    by (simp only: ndarray.simps)
  have len: "length (data t) = prod_list [a, b, c]"
    using assms(1) sh by (simp only: wf_ndarray_def)
  have revabc: "rev [a, b, c] = [c, b, a]"
    by simp
  have dd: "map (\<lambda>k. ?d ! ravel [c, b, a] (rev (unravel [a, b, c] k))) [0..<prod_list [a, b, c]]
             = data t"
    using reverse_twice_data[OF len] by (simp only: revabc)
  have t_eq: "\<lparr>shape = [a, b, c], data = data t\<rparr> = t"
    using sh by (cases t) simp
  have "rearrange ?r ''c b a -> a b c'' Map.empty =
        Inr \<lparr>shape = [a, b, c],
             data = map (\<lambda>k. ?d ! ravel [c, b, a] (rev (unravel [a, b, c] k)))
                         [0..<prod_list [a, b, c]]\<rparr>"
    by (simp only: rearrange_def plan_backward[OF shr] sum.case perform_reverse3[OF shr]
          ndarray.simps)
  then have second: "rearrange ?r ''c b a -> a b c'' Map.empty = Inr t"
    by (simp only: dd t_eq)
  from first second show ?thesis
    by blast
qed

theorem C6_witness:
  "wf_ndarray \<lparr>shape = [1, 2, 2], data = [10, 11, 12, 13 :: int]\<rparr>
   \<and> length (shape \<lparr>shape = [1, 2, 2], data = [10, 11, 12, 13 :: int]\<rparr>) = 3
   \<and> (\<exists>r. rearrange \<lparr>shape = [1, 2, 2], data = [10, 11, 12, 13 :: int]\<rparr>
               ''a b c -> c b a'' Map.empty = Inr r
          \<and> rearrange r ''c b a -> a b c'' Map.empty
              = Inr \<lparr>shape = [1, 2, 2], data = [10, 11, 12, 13 :: int]\<rparr>)"
  using C6_roundtrip [of "\<lparr>shape = [1, 2, 2], data = [10, 11, 12, 13 :: int]\<rparr>"]
  by (simp add: wf_ndarray_def)

section \<open>Unused size hints\<close>

text \<open>
  C8, as stated: an extra key of \<open>named_sizes\<close> that names no axis of the pattern never
  changes the outcome. The sizes are keyword arguments: the extra key \<open>pattern\<close> makes the
  call raise \<open>TypeError\<close>, while the call without it returns the array.
\<close>

theorem C8_counterexample:
  "''pattern'' \<notin> half_identifiers ''a b '' \<and> ''pattern'' \<notin> half_identifiers '' b a''
   \<and> call_rearrange \<lparr>shape = [2, 3], data = [0, 1, 2, 3, 4, 5 :: int]\<rparr> ''a b -> b a''
        [''pattern'' \<mapsto> 7]
     = Inl TypeError
   \<and> call_rearrange \<lparr>shape = [2, 3], data = [0, 1, 2, 3, 4, 5 :: int]\<rparr> ''a b -> b a''
        Map.empty
     = Inr \<lparr>shape = [3, 2], data = [0, 3, 1, 4, 2, 5]\<rparr>"
  by code_simp

text \<open>
  C8, amended: when \<open>key\<close> is neither \<open>tensor\<close> nor \<open>pattern\<close> (the parameter names of
  \<open>rearrange\<close>) and is an axis name of neither half of the pattern, adding \<open>key\<close> (with any
  value) to \<open>named_sizes\<close> does not change the outcome of the call: the same array is
  returned, or the same error is raised.
\<close>

theorem C8_unused_size_ignored:
  assumes "key \<noteq> ''tensor''" and "key \<noteq> ''pattern''"
    and "\<forall>half \<in> set (split_arrow pattern []). key \<notin> half_identifiers half"
  shows "call_rearrange tensor pattern (named_sizes(key \<mapsto> v))
           = call_rearrange tensor pattern named_sizes"
proof -
  have body: "rearrange tensor pattern (named_sizes(key \<mapsto> v))
                = rearrange tensor pattern named_sizes"
    by (rule rearrange_extra_key[OF assms(3)])
  have t: "(named_sizes(key \<mapsto> v)) ''tensor'' = named_sizes ''tensor''"
    using assms(1) by simp
  have p: "(named_sizes(key \<mapsto> v)) ''pattern'' = named_sizes ''pattern''"
    using assms(2) by simp
  show ?thesis
    by (simp only: call_rearrange_def body t p)
qed

theorem C8_witness:
  "''unused'' \<noteq> ''tensor'' \<and> ''unused'' \<noteq> ''pattern''
   \<and> ''unused'' \<notin> half_identifiers ''a b '' \<and> ''unused'' \<notin> half_identifiers '' b a''
   \<and> call_rearrange \<lparr>shape = [2, 3], data = [0, 1, 2, 3, 4, 5 :: int]\<rparr> ''a b -> b a''
        [''unused'' \<mapsto> 7]
     = Inr \<lparr>shape = [3, 2], data = [0, 3, 1, 4, 2, 5]\<rparr>"
proof -
  have s: "split_arrow ''a b -> b a'' [] = [''a b '', '' b a'']"
    by code_simp
  have h1: "''unused'' \<notin> half_identifiers ''a b ''"
    by code_simp
  have h2: "''unused'' \<notin> half_identifiers '' b a''"
    by code_simp
  have h: "\<forall>half \<in> set (split_arrow ''a b -> b a'' []). ''unused'' \<notin> half_identifiers half"
    using h1 h2 by (simp only: s list.set ball_simps insert_iff empty_iff) simp
  have n1: "''unused'' \<noteq> ''tensor''"
    by simp
  have n2: "''unused'' \<noteq> ''pattern''"
    by simp
  have r: "call_rearrange \<lparr>shape = [2, 3], data = [0, 1, 2, 3, 4, 5 :: int]\<rparr> ''a b -> b a''
             Map.empty
     = Inr \<lparr>shape = [3, 2], data = [0, 3, 1, 4, 2, 5]\<rparr>"
    by code_simp
  show ?thesis
    using h1 h2 r C8_unused_size_ignored [OF n1 n2 h, where v = 7 and named_sizes = Map.empty
                    and tensor = "\<lparr>shape = [2, 3], data = [0, 1, 2, 3, 4, 5 :: int]\<rparr>"]
    by simp
qed

end
